theory Spec2Isabelle
  imports Main
begin

section \<open>Strings and paths\<close>

text \<open>
  Go strings are byte sequences; they are modelled as \<open>string\<close> (a list of characters).
  \<open>HasPrefix\<close> and \<open>TrimPrefix\<close> are the functions of Go's package \<open>strings\<close>:
  \<open>TrimPrefix s p\<close> removes one leading occurrence of \<open>p\<close> and nothing more.
\<close>

definition HasPrefix :: "string \<Rightarrow> string \<Rightarrow> bool" where
  "HasPrefix s p = (length p \<le> length s \<and> take (length p) s = p)"

definition TrimPrefix :: "string \<Rightarrow> string \<Rightarrow> string" where
  "TrimPrefix s p = (if HasPrefix s p then drop (length p) s else s)"

text \<open>
  \<open>Clean\<close> is \<open>filepath.Clean\<close> of Go's standard library for slash-separated paths
  (the library is not part of the repository; the model follows its documented rules):
  the path is cut at every separator; empty elements and \<open>.\<close> elements are dropped; a
  \<open>..\<close> element removes the element before it when that is not itself \<open>..\<close>, is
  dropped at the root of a rooted path, and is kept otherwise; the remaining elements
  are joined with single separators, behind the root separator of a rooted path; an
  empty result becomes \<open>.\<close>. The elements kept so far are held most recent first.
\<close>

fun split_sep :: "string \<Rightarrow> string list" where
  "split_sep [] = [[]]"
| "split_sep (c # cs) =
     (if c = CHR ''/'' then [] # split_sep cs
      else (case split_sep cs of [] \<Rightarrow> [[c]] | w # ws \<Rightarrow> (c # w) # ws))"

fun join_sep :: "string list \<Rightarrow> string" where
  "join_sep [] = []"
| "join_sep [w] = w"
| "join_sep (w # v # ws) = w @ CHR ''/'' # join_sep (v # ws)"

definition clean_elem :: "bool \<Rightarrow> string list \<Rightarrow> string \<Rightarrow> string list" where
  "clean_elem rooted out e =
     (if e = [] \<or> e = ''.'' then out
      else if e = ''..'' then
        (case out of
           [] \<Rightarrow> if rooted then [] else [''..'']
         | prev # rest \<Rightarrow> if prev = ''..'' then ''..'' # out else rest)
      else e # out)"

definition Clean :: "string \<Rightarrow> string" where
  "Clean path =
     (if path = [] then ''.''
      else
        let rooted = (hd path = CHR ''/'');
            out = join_sep (rev (foldl (clean_elem rooted) [] (split_sep path)))
        in if rooted then CHR ''/'' # out
           else if out = [] then ''.''
           else out)"

section \<open>Tar entries, layers and images\<close>

text \<open>
  A tar header carries the fields \<open>Extract\<close> reads: the name, the type flag (a byte)
  and the size (an \<open>int64\<close>; the reader rejects negative sizes). The record is
  extensible, so the other metadata of a header travels with it unchanged.
\<close>

record header =
  Name :: string
  Typeflag :: char
  Size :: int

definition TypeReg :: char where
  "TypeReg = CHR ''0''"

definition TypeDir :: char where
  "TypeDir = CHR ''5''"

type_synonym error = string

type_synonym entry = "header \<times> string"

text \<open>
  What \<open>tar.NewReader\<close> yields over a layer's stream: the entries in stream order, each
  a header with the bytes of its body, and how the stream ends: \<open>None\<close> when
  \<open>Next\<close> reaches \<open>io.EOF\<close>, \<open>Some err\<close> when it fails after the entries before it.
  A layer is the result of \<open>layer.Uncompressed()\<close>: an error, or such a stream.
  An image gives the result of \<open>img.Layers()\<close>, oldest layer first.
\<close>

type_synonym tar_stream = "entry list \<times> error option"

type_synonym layer = "error + tar_stream"

record image =
  Layers :: "error + layer list"

section \<open>The output archive\<close>

text \<open>
  The writer stack \<open>tar.NewWriter (gzip.NewWriter Destination)\<close> is modelled by the
  archive it has produced: the entries written so far, in write order, each a header with
  the body bytes copied behind it. Failures of the sink are an input of the model:
  \<open>faults\<close> lists, for the write operations to come, whether each fails (\<open>Some err\<close>)
  or succeeds (\<open>None\<close>); operations beyond the list succeed. A failing \<open>Copy\<close> stands
  for \<open>io.Copy\<close> failing on either side, the read of the body or the write.
  The bytes a failed operation may have written are not tracked. The two deferred
  \<open>Close\<close> calls, whose errors \<open>Extract\<close> discards, are outside the model: it follows the
  entries of the archive, not its trailer.
\<close>

record writer =
  entries :: "entry list"
  faults :: "error option list"

definition next_fault :: "writer \<Rightarrow> error option \<times> writer" where
  "next_fault w =
     (case faults w of
        [] \<Rightarrow> (None, w)
      | f # fs \<Rightarrow> (f, w\<lparr>faults := fs\<rparr>))"

fun append_body :: "entry list \<Rightarrow> string \<Rightarrow> entry list" where
  "append_body [] body = []"
| "append_body [(h, c)] body = [(h, c @ body)]"
| "append_body (e # e' # es) body = e # append_body (e' # es) body"

definition WriteHeader :: "writer \<Rightarrow> header \<Rightarrow> error option \<times> writer" where
  "WriteHeader w h =
     (case next_fault w of
        (Some err, w') \<Rightarrow> (Some err, w')
      | (None, w') \<Rightarrow> (None, w'\<lparr>entries := entries w' @ [(h, [])]\<rparr>))"

definition Copy :: "writer \<Rightarrow> string \<Rightarrow> error option \<times> writer" where
  "Copy w body =
     (case next_fault w of
        (Some err, w') \<Rightarrow> (Some err, w')
      | (None, w') \<Rightarrow> (None, w'\<lparr>entries := append_body (entries w') body\<rparr>))"

section \<open>Extract\<close>

text \<open>
  \<open>ExtractOptions\<close> as in the source. \<open>Tarball\<close> is \<open>None\<close> for a nil writer;
  \<open>Targets\<close> is \<open>None\<close> for a nil slice, which Go ranges over and measures like an
  empty one. The writers are mutable objects the options refer to: \<open>Extract\<close> returns
  the options with the writers in their final state, beside the error
  (\<open>None\<close> for a nil error).
\<close>

record 'w ExtractOptions =
  Tarball :: "'w option"
  Targets :: "string list option"
  Destination :: writer

definition targets_list :: "string list option \<Rightarrow> string list" where
  "targets_list ts = (case ts of None \<Rightarrow> [] | Some l \<Rightarrow> l)"

text \<open>The first loop: the set \<open>targets\<close> of the strings seen, and the first repeated one.\<close>

fun check_duplicates :: "string list \<Rightarrow> string set \<Rightarrow> string option" where
  "check_duplicates [] seen = None"
| "check_duplicates (t # ts) seen =
     (if t \<in> seen then Some t else check_duplicates ts (insert t seen))"

text \<open>The state of the layer loop: the set \<open>processedTargets\<close> and the tar writer \<open>tw\<close>.\<close>

record scan_state =
  processedTargets :: "string set"
  tw :: writer

text \<open>
  The innermost loop, over \<open>opts.Targets\<close>, for one entry whose header already carries
  the cleaned name: the first target equal to the name once its leading separator is
  trimmed marks the name as processed, writes the header, copies the body, and ends
  the loop.
\<close>

fun match_targets :: "string list \<Rightarrow> header \<Rightarrow> string \<Rightarrow> scan_state \<Rightarrow> error option \<times> scan_state" where
  "match_targets [] hdr body st = (None, st)"
| "match_targets (target # rest) hdr body st =
     (if Name hdr = TrimPrefix target ''/'' then
        (case WriteHeader (tw st) hdr of
           (Some err, w) \<Rightarrow>
             (Some (''could not write tar header: '' @ Name hdr @ '', '' @ err),
              \<lparr>processedTargets = insert (Name hdr) (processedTargets st), tw = w\<rparr>)
         | (None, w) \<Rightarrow>
             (case Copy w body of
                (Some err, w') \<Rightarrow>
                  (Some (''could not copy '' @ Name hdr @ '': '' @ err),
                   \<lparr>processedTargets = insert (Name hdr) (processedTargets st), tw = w'\<rparr>)
              | (None, w') \<Rightarrow>
                  (None, \<lparr>processedTargets = insert (Name hdr) (processedTargets st), tw = w'\<rparr>)))
      else match_targets rest hdr body st)"

text \<open>The loop over the entries of one layer, up to the end of its stream.\<close>

fun read_entries :: "string list \<Rightarrow> entry list \<Rightarrow> error option \<Rightarrow> scan_state \<Rightarrow> error option \<times> scan_state" where
  "read_entries targets [] eof st =
     (case eof of
        None \<Rightarrow> (None, st)
      | Some err \<Rightarrow> (Some (''reading tar: '' @ err), st))"
| "read_entries targets ((hdr, body) # es) eof st =
     (if Typeflag hdr = TypeDir then read_entries targets es eof st
      else if Size hdr = 0 then read_entries targets es eof st
      else if length (Clean (Name hdr)) = 0 then read_entries targets es eof st
      else if Clean (Name hdr) \<in> processedTargets st then read_entries targets es eof st
      else
        (case match_targets targets (hdr\<lparr>Name := Clean (Name hdr)\<rparr>) body st of
           (Some err, st') \<Rightarrow> (Some err, st')
         | (None, st') \<Rightarrow> read_entries targets es eof st'))"

text \<open>
  The loop over the layers. The source counts \<open>i\<close> down from the last layer; the model
  takes the layers in that order, most recent first.
\<close>

fun read_layers :: "string list \<Rightarrow> layer list \<Rightarrow> scan_state \<Rightarrow> error option \<times> scan_state" where
  "read_layers targets [] st = (None, st)"
| "read_layers targets (Inl err # older) st = (Some (''reading layer contents: '' @ err), st)"
| "read_layers targets (Inr (es, eof) # older) st =
     (case read_entries targets es eof st of
        (Some err, st') \<Rightarrow> (Some err, st')
      | (None, st') \<Rightarrow> read_layers targets older st')"

text \<open>
  \<open>Extract\<close>. \<open>crane.Export\<close> belongs to another library and is a parameter: it takes
  the image and the tarball writer and returns its error and the writer's final state.
\<close>

definition Extract :: "(image \<Rightarrow> 'w \<Rightarrow> error option \<times> 'w) \<Rightarrow> image \<Rightarrow> 'w ExtractOptions
    \<Rightarrow> error option \<times> 'w ExtractOptions" where
  "Extract Export img opts =
     (case Tarball opts of
        Some w \<Rightarrow> (case Export img w of (err, w') \<Rightarrow> (err, opts\<lparr>Tarball := Some w'\<rparr>))
      | None \<Rightarrow>
          if Targets opts = None \<or> length (targets_list (Targets opts)) = 0
          then (Some ''must provide at least one target'', opts)
          else
            (case check_duplicates (targets_list (Targets opts)) {} of
               Some t \<Rightarrow> (Some (''duplicate target source detected: '' @ t), opts)
             | None \<Rightarrow>
                 (case Layers img of
                    Inl err \<Rightarrow> (Some (''retrieving image layers: '' @ err), opts)
                  | Inr layers \<Rightarrow>
                      (case read_layers (targets_list (Targets opts)) (rev layers)
                              \<lparr>processedTargets = {}, tw = Destination opts\<rparr> of
                         (err, st) \<Rightarrow> (err, opts\<lparr>Destination := tw st\<rparr>)))))"

text \<open>The entries an extraction has added to the archive of its destination.\<close>

definition extracted :: "'w ExtractOptions \<Rightarrow> 'w ExtractOptions \<Rightarrow> entry list" where
  "extracted opts opts' =
     drop (length (entries (Destination opts))) (entries (Destination opts'))"

section \<open>Notions used in the statements\<close>

text \<open>
  The strings the entry names are compared with: the targets, each without one leading
  separator.
\<close>

definition trimmed :: "string list \<Rightarrow> string set" where
  "trimmed targets = (\<lambda>t. TrimPrefix t ''/'') ` set targets"

text \<open>
  An entry defines the path \<open>p\<close> for \<open>Extract\<close> when the entry loop does not skip
  it (it is no directory and its size is not zero) and its cleaned name is \<open>p\<close>. A layer
  defines \<open>p\<close> when its stream opens and holds such an entry.
\<close>

definition entry_defines :: "string \<Rightarrow> entry \<Rightarrow> bool" where
  "entry_defines p e =
     (Typeflag (fst e) \<noteq> TypeDir \<and> Size (fst e) \<noteq> 0 \<and> Clean (Name (fst e)) = p)"

definition layer_entries :: "layer \<Rightarrow> entry list" where
  "layer_entries l = (case l of Inl err \<Rightarrow> [] | Inr (es, eof) \<Rightarrow> es)"

definition layer_defines :: "string \<Rightarrow> layer \<Rightarrow> bool" where
  "layer_defines p l = list_ex (entry_defines p) (layer_entries l)"

text \<open>
  A layer is readable when its stream opens and ends with \<open>io.EOF\<close>; a writer is free
  of faults when none of its coming operations fails.
\<close>

definition readable :: "layer \<Rightarrow> bool" where
  "readable l = (case l of Inl err \<Rightarrow> False | Inr (es, eof) \<Rightarrow> eof = None)"

definition fault_free :: "writer \<Rightarrow> bool" where
  "fault_free w = list_all (\<lambda>f. f = None) (faults w)"

text \<open>Shapes of a path string: two separators in a row, and a separator at the end.\<close>

fun double_sep :: "string \<Rightarrow> bool" where
  "double_sep (a # b # cs) = ((a = CHR ''/'' \<and> b = CHR ''/'') \<or> double_sep (b # cs))"
| "double_sep cs = False"

definition trailing_sep :: "string \<Rightarrow> bool" where
  "trailing_sep s = (s \<noteq> [] \<and> last s = CHR ''/'')"

section \<open>Functions used in the proofs\<close>

text \<open>The elements \<open>Clean\<close> keeps: not empty, not \<open>.\<close>, without a separator.\<close>

definition elem_ok :: "string \<Rightarrow> bool" where
  "elem_ok e = (e \<noteq> [] \<and> e \<noteq> ''.'' \<and> CHR ''/'' \<notin> set e)"

text \<open>
  \<open>write_entry\<close> is the body of the target loop at a matching target. \<open>picks W P es\<close>
  lists what a run without failure writes for the entries \<open>es\<close>, when \<open>W\<close> are the
  trimmed targets and \<open>P\<close> the names processed before.
\<close>

definition write_entry :: "header \<Rightarrow> string \<Rightarrow> scan_state \<Rightarrow> error option \<times> scan_state" where
  "write_entry hdr body st =
     (case WriteHeader (tw st) hdr of
        (Some err, w) \<Rightarrow>
          (Some (''could not write tar header: '' @ Name hdr @ '', '' @ err),
           \<lparr>processedTargets = insert (Name hdr) (processedTargets st), tw = w\<rparr>)
      | (None, w) \<Rightarrow>
          (case Copy w body of
             (Some err, w') \<Rightarrow>
               (Some (''could not copy '' @ Name hdr @ '': '' @ err),
                \<lparr>processedTargets = insert (Name hdr) (processedTargets st), tw = w'\<rparr>)
           | (None, w') \<Rightarrow>
               (None, \<lparr>processedTargets = insert (Name hdr) (processedTargets st), tw = w'\<rparr>)))"

fun picks :: "string set \<Rightarrow> string set \<Rightarrow> entry list \<Rightarrow> entry list" where
  "picks W P [] = []"
| "picks W P ((hdr, body) # es) =
     (if Typeflag hdr \<noteq> TypeDir \<and> Size hdr \<noteq> 0 \<and> Clean (Name hdr) \<notin> P \<and> Clean (Name hdr) \<in> W
      then (hdr\<lparr>Name := Clean (Name hdr)\<rparr>, body) # picks W (insert (Clean (Name hdr)) P) es
      else picks W P es)"

section \<open>Example images and options\<close>

text \<open>
  \<open>ExportStub\<close> stands for \<open>crane.Export\<close> where a concrete run needs one: it appends a
  mark to the tarball writer, a list of strings. \<open>regfile\<close> is a regular file entry whose
  size is the length of its body. \<open>image01\<close> is the layer stack of the spec's scenario,
  with \<open>layer1\<close> the most recent; its entry for \<open>x\<close> carries the \<open>./\<close> prefix some
  tools write.
\<close>

definition ExportStub :: "image \<Rightarrow> string list \<Rightarrow> error option \<times> string list" where
  "ExportStub img w = (None, w @ [''filesystem''])"

definition regfile :: "string \<Rightarrow> string \<Rightarrow> entry" where
  "regfile name body = (\<lparr>Name = name, Typeflag = TypeReg, Size = int (length body)\<rparr>, body)"

definition layer0 :: layer where
  "layer0 = Inr ([regfile ''x'' ''old''], None)"

definition layer1 :: layer where
  "layer1 = Inr ([regfile ''./x'' ''new'', regfile ''y'' ''data''], None)"

definition image01 :: image where
  "image01 = \<lparr>Layers = Inr [layer0, layer1]\<rparr>"

text \<open>A layer whose only entry is the whiteout marker of \<open>x\<close>: an empty regular file.\<close>

definition whiteout_layer :: layer where
  "whiteout_layer = Inr ([regfile ''.wh.x'' []], None)"

definition image_whiteout :: image where
  "image_whiteout = \<lparr>Layers = Inr [layer0, whiteout_layer]\<rparr>"

definition image_ab :: image where
  "image_ab = \<lparr>Layers = Inr [Inr ([regfile ''./a/b'' ''bin''], None)]\<rparr>"

definition image_rooted :: image where
  "image_rooted = \<lparr>Layers = Inr [Inr ([regfile ''/a/b'' ''bin''], None)]\<rparr>"

text \<open>Images that fail: a layer that does not open, and a stream that breaks off.\<close>

definition image_unopened_old :: image where
  "image_unopened_old = \<lparr>Layers = Inr [Inl ''EOF'', layer1]\<rparr>"

definition image_unopened_new :: image where
  "image_unopened_new = \<lparr>Layers = Inr [layer0, Inl ''EOF'']\<rparr>"

definition image_truncated :: image where
  "image_truncated =
     \<lparr>Layers = Inr [layer0, Inr ([regfile ''y'' ''data''], Some ''unexpected EOF'')]\<rparr>"

definition sink0 :: writer where
  "sink0 = \<lparr>entries = [], faults = []\<rparr>"

definition opts_for :: "string list \<Rightarrow> string list ExtractOptions" where
  "opts_for ts = \<lparr>Tarball = None, Targets = Some ts, Destination = sink0\<rparr>"

definition opts_faulty :: "error option list \<Rightarrow> string list \<Rightarrow> string list ExtractOptions" where
  "opts_faulty fs ts =
     \<lparr>Tarball = None, Targets = Some ts, Destination = \<lparr>entries = [], faults = fs\<rparr>\<rparr>"

definition opts_tarball :: "string list option \<Rightarrow> string list ExtractOptions" where
  "opts_tarball ts = \<lparr>Tarball = Some [], Targets = ts, Destination = sink0\<rparr>"

section \<open>Properties of \<open>Clean\<close>\<close>

text \<open>Paths and their clean forms, taken from the table the library is tested with.\<close>

lemma Clean_examples:
  "Clean [] = ''.''" "Clean ''abc/def'' = ''abc/def''" "Clean ''../../abc'' = ''../../abc''"
  "Clean ''/'' = ''/''" "Clean ''a/b/c/'' = ''a/b/c''" "Clean ''./'' = ''.''"
  "Clean ''abc//def//ghi'' = ''abc/def/ghi''" "Clean ''//abc//'' = ''/abc''"
  "Clean ''/./abc/def'' = ''/abc/def''" "Clean ''abc/.'' = ''abc''"
  "Clean ''abc/def/../ghi/../jkl'' = ''abc/jkl''" "Clean ''abc/def/../..'' = ''.''"
  "Clean ''/abc/def/../../..'' = ''/''" "Clean ''abc/def/../../..'' = ''..''"
  "Clean ''abc/def/../../../ghi/jkl/../../../mno'' = ''../../mno''"
  "Clean ''abc/../../././../def'' = ''../../def''"
  by (simp_all add: Clean_def clean_elem_def)

lemma split_sep_no_sep: "w \<in> set (split_sep s) \<Longrightarrow> CHR ''/'' \<notin> set w"
  by (induction s arbitrary: w) (auto split: list.splits if_splits)

lemma clean_elem_ok:
  "list_all elem_ok out \<Longrightarrow> CHR ''/'' \<notin> set e \<Longrightarrow> list_all elem_ok (clean_elem r out e)"
  by (auto simp: clean_elem_def elem_ok_def split: list.splits)

lemma foldl_clean_elem_ok:
  "list_all elem_ok out \<Longrightarrow> \<forall>e \<in> set es. CHR ''/'' \<notin> set e
    \<Longrightarrow> list_all elem_ok (foldl (clean_elem r) out es)"
  by (induction es arbitrary: out) (simp_all add: clean_elem_ok)

lemma double_sep_no_sep: "CHR ''/'' \<notin> set w \<Longrightarrow> \<not> double_sep w"
  by (induction w rule: double_sep.induct) auto

lemma double_sep_append_sep:
  "w \<noteq> [] \<Longrightarrow> CHR ''/'' \<notin> set w \<Longrightarrow> v \<noteq> [] \<Longrightarrow> hd v \<noteq> CHR ''/'' \<Longrightarrow> \<not> double_sep v
    \<Longrightarrow> \<not> double_sep (w @ CHR ''/'' # v)"
proof (induction w)
  case Nil
  then show ?case by simp
next
  case (Cons a w)
  show ?case
  proof (cases "w = []")
    case True
    with Cons.prems show ?thesis by (cases v) auto
  next
    case False
    then obtain b w' where w: "w = b # w'" by (cases w) auto
    from False Cons.IH Cons.prems have "\<not> double_sep (w @ CHR ''/'' # v)" by simp
    with w Cons.prems show ?thesis by auto
  qed
qed

lemma join_sep_ok:
  "ws \<noteq> [] \<Longrightarrow> list_all elem_ok ws \<Longrightarrow>
     join_sep ws \<noteq> [] \<and> hd (join_sep ws) \<noteq> CHR ''/'' \<and> last (join_sep ws) \<noteq> CHR ''/'' \<and>
     \<not> double_sep (join_sep ws) \<and> \<not> HasPrefix (join_sep ws) ''./''"
proof (induction ws rule: join_sep.induct)
  case 1
  then show ?case by simp
next
  case (2 w)
  then have w: "w \<noteq> []" "w \<noteq> ''.''" "CHR ''/'' \<notin> set w"
    by (simp_all add: elem_ok_def)
  have "last w \<noteq> CHR ''/''"
    using w by (metis last_in_set)
  moreover have "hd w \<noteq> CHR ''/''"
    using w by (cases w) auto
  moreover have "\<not> HasPrefix w ''./''"
    using w by (cases w rule: double_sep.cases) (auto simp: HasPrefix_def)
  ultimately show ?case using w by (simp add: double_sep_no_sep)
next
  case (3 w v ws)
  then have w: "w \<noteq> []" "w \<noteq> ''.''" "CHR ''/'' \<notin> set w"
    and ih: "join_sep (v # ws) \<noteq> []" "hd (join_sep (v # ws)) \<noteq> CHR ''/''"
      "last (join_sep (v # ws)) \<noteq> CHR ''/''" "\<not> double_sep (join_sep (v # ws))"
    by (simp_all add: elem_ok_def)
  have "\<not> double_sep (w @ CHR ''/'' # join_sep (v # ws))"
    using w ih by (intro double_sep_append_sep)
  moreover have "\<not> HasPrefix (w @ CHR ''/'' # join_sep (v # ws)) ''./''"
    using w by (cases w rule: double_sep.cases) (auto simp: HasPrefix_def)
  moreover have "hd (w @ CHR ''/'' # join_sep (v # ws)) \<noteq> CHR ''/''"
    using w by (cases w) auto
  ultimately show ?case using ih by simp
qed

lemma Clean_not_Nil: "Clean p \<noteq> []"
  by (simp add: Clean_def Let_def)

lemma Clean_shape:
  "\<not> double_sep (Clean p) \<and> \<not> HasPrefix (Clean p) ''./'' \<and>
   (trailing_sep (Clean p) \<longrightarrow> Clean p = ''/'')"
proof (cases "p = []")
  case True
  then show ?thesis by (simp add: Clean_def HasPrefix_def trailing_sep_def)
next
  case False
  define r where "r = (hd p = CHR ''/'')"
  define ws where "ws = rev (foldl (clean_elem r) [] (split_sep p))"
  have ok: "list_all elem_ok ws"
    unfolding ws_def using foldl_clean_elem_ok [of "[]" "split_sep p" r]
    by (simp add: split_sep_no_sep)
  have C: "Clean p = (if r then CHR ''/'' # join_sep ws else if join_sep ws = [] then ''.'' else join_sep ws)"
    using False by (simp add: Clean_def Let_def r_def ws_def)
  show ?thesis
  proof (cases "ws = []")
    case True
    then show ?thesis by (simp add: C HasPrefix_def trailing_sep_def)
  next
    case False
    from join_sep_ok [OF False ok] show ?thesis
      by (cases "join_sep ws") (auto simp: C HasPrefix_def trailing_sep_def)
  qed
qed

section \<open>The loops of a run without failure\<close>

lemma append_body_snoc: "append_body (xs @ [(h, c)]) b = xs @ [(h, c @ b)]"
  by (induction xs b rule: append_body.induct) auto

lemma match_targets_eq:
  "match_targets ts h b st = (if Name h \<in> trimmed ts then write_entry h b st else (None, st))"
  by (induction ts) (auto simp: trimmed_def write_entry_def)

lemma write_entry_None:
  assumes "write_entry h b st = (None, st')"
  shows "st' = \<lparr>processedTargets = insert (Name h) (processedTargets st),
               tw = \<lparr>entries = entries (tw st) @ [(h, b)], faults = tl (tl (faults (tw st)))\<rparr>\<rparr>"
  using assms
  by (auto simp: write_entry_def WriteHeader_def Copy_def next_fault_def append_body_snoc
      split: list.splits option.splits prod.splits)

lemma write_entry_fault_free:
  assumes "fault_free (tw st)"
  shows "\<exists>st'. write_entry h b st = (None, st') \<and> fault_free (tw st')"
  using assms
  by (auto simp: write_entry_def WriteHeader_def Copy_def next_fault_def fault_free_def
      split: list.splits option.splits prod.splits)

lemma picks_append:
  "picks W P (xs @ ys) = picks W P xs @ picks W (P \<union> Name ` fst ` set (picks W P xs)) ys"
  by (induction xs arbitrary: P) (auto simp: Let_def)

lemma read_entries_None:
  assumes "read_entries ts es eof st = (None, st')"
  shows "eof = None \<and>
         entries (tw st') = entries (tw st) @ picks (trimmed ts) (processedTargets st) es \<and>
         processedTargets st' =
           processedTargets st \<union> Name ` fst ` set (picks (trimmed ts) (processedTargets st) es)"
  using assms
proof (induction es arbitrary: st)
  case Nil
  then show ?case by (auto split: option.splits)
next
  case (Cons e es)
  obtain hdr body where e: "e = (hdr, body)" by (cases e)
  show ?case
  proof (cases "Typeflag hdr \<noteq> TypeDir \<and> Size hdr \<noteq> 0 \<and>
      Clean (Name hdr) \<notin> processedTargets st \<and> Clean (Name hdr) \<in> trimmed ts")
    case True
    with Cons.prems e obtain st1 where
      w: "write_entry (hdr\<lparr>Name := Clean (Name hdr)\<rparr>) body st = (None, st1)"
      and r: "read_entries ts es eof st1 = (None, st')"
      by (auto simp: match_targets_eq Clean_not_Nil split: option.splits prod.splits)
    note s1 = write_entry_None [OF w]
    from Cons.IH [OF r] s1 True e show ?thesis by auto
  next
    case False
    with Cons.prems e have "read_entries ts es eof st = (None, st')"
      by (auto simp: match_targets_eq Clean_not_Nil split: if_splits)
    from Cons.IH [OF this] False e show ?thesis by auto
  qed
qed

lemma read_entries_fault_free:
  assumes "fault_free (tw st)"
  shows "\<exists>st'. read_entries ts es None st = (None, st') \<and> fault_free (tw st')"
  using assms
proof (induction es arbitrary: st)
  case Nil
  then show ?case by simp
next
  case (Cons e es)
  obtain hdr body where e: "e = (hdr, body)" by (cases e)
  from write_entry_fault_free [OF Cons.prems] obtain st1 where
    w: "write_entry (hdr\<lparr>Name := Clean (Name hdr)\<rparr>) body st = (None, st1)" and f: "fault_free (tw st1)"
    by blast
  from Cons.IH [OF f] Cons.IH [OF Cons.prems] w show ?case
    by (auto simp: e match_targets_eq)
qed

lemma read_layers_None:
  assumes "read_layers ts ls st = (None, st')"
  shows "list_all readable ls \<and>
         entries (tw st') =
           entries (tw st) @ picks (trimmed ts) (processedTargets st) (concat (map layer_entries ls))"
  using assms
proof (induction ts ls st rule: read_layers.induct)
  case (1 targets st)
  then show ?case by simp
next
  case (2 targets err older st)
  then show ?case by simp
next
  case (3 targets es eof older st)
  from "3.prems" obtain st1 where
    r: "read_entries targets es eof st = (None, st1)"
    and l: "read_layers targets older st1 = (None, st')"
    by (auto split: option.splits prod.splits)
  from read_entries_None [OF r] "3.IH" [OF _ _ l] r show ?case
    by (simp add: picks_append layer_entries_def readable_def)
qed

lemma read_layers_fault_free:
  assumes "fault_free (tw st)" "list_all readable ls"
  shows "\<exists>st'. read_layers ts ls st = (None, st')"
  using assms
proof (induction ts ls st rule: read_layers.induct)
  case (1 targets st)
  then show ?case by simp
next
  case (2 targets err older st)
  then show ?case by (simp add: readable_def)
next
  case (3 targets es eof older st)
  then have eof: "eof = None" by (simp add: readable_def)
  from read_entries_fault_free [OF "3.prems"(1)] obtain st1 where
    r: "read_entries targets es None st = (None, st1)" and f: "fault_free (tw st1)"
    by blast
  from "3.IH" [OF _ _ f] r "3.prems" eof show ?case
    by simp
qed

lemma picks_names: "e \<in> set (picks W P es) \<Longrightarrow> Name (fst e) \<in> W \<and> Name (fst e) \<notin> P"
proof (induction es arbitrary: P)
  case Nil
  then show ?case by simp
next
  case (Cons x es)
  obtain hdr body where x: "x = (hdr, body)" by (cases x)
  let ?n = "Clean (Name hdr)"
  show ?case
  proof (cases "Typeflag hdr \<noteq> TypeDir \<and> Size hdr \<noteq> 0 \<and> ?n \<notin> P \<and> ?n \<in> W")
    case True
    with Cons.prems x consider "e = (hdr\<lparr>Name := ?n\<rparr>, body)" | "e \<in> set (picks W (insert ?n P) es)"
      by auto
    then show ?thesis
    proof cases
      case 1
      with True show ?thesis by simp
    next
      case 2
      from Cons.IH [OF 2] show ?thesis by simp
    qed
  next
    case False
    with Cons.prems x have "e \<in> set (picks W P es)" by auto
    from Cons.IH [OF this] show ?thesis .
  qed
qed

lemma picks_distinct: "distinct (map (\<lambda>e. Name (fst e)) (picks W P es))"
proof (induction es arbitrary: P)
  case Nil
  then show ?case by simp
next
  case (Cons e es)
  obtain hdr body where e: "e = (hdr, body)" by (cases e)
  have "Clean (Name hdr) \<notin> (\<lambda>e. Name (fst e)) ` set (picks W (insert (Clean (Name hdr)) P) es)"
    using picks_names [of _ W "insert (Clean (Name hdr)) P" es] by fastforce
  with Cons.IH show ?case by (simp add: e)
qed

lemma picks_filter:
  "filter (\<lambda>e. Name (fst e) = p) (picks W P es) =
     (if p \<in> W \<and> p \<notin> P
      then (case find (entry_defines p) es of None \<Rightarrow> [] | Some (h, c) \<Rightarrow> [(h\<lparr>Name := p\<rparr>, c)])
      else [])"
  by (induction es arbitrary: P) (auto simp: entry_defines_def)

lemma find_append:
  "find P (xs @ ys) = (case find P xs of None \<Rightarrow> find P ys | Some x \<Rightarrow> Some x)"
  by (induction xs) auto

lemma find_not_defined:
  "\<not> layer_defines p l \<Longrightarrow> find (entry_defines p) (layer_entries l) = None"
  by (simp add: layer_defines_def find_None_iff list_ex_iff)

lemma find_concat_None:
  "list_all (\<lambda>l. \<not> layer_defines p l) ls \<Longrightarrow> find (entry_defines p) (concat (map layer_entries ls)) = None"
  by (induction ls) (simp_all add: find_append find_not_defined)

lemma check_duplicates_None: "check_duplicates ts S = None \<longleftrightarrow> distinct ts \<and> set ts \<inter> S = {}"
  by (induction ts arbitrary: S) auto

lemma Extract_None:
  assumes "Tarball opts = None" "Targets opts = Some ts" "Extract X img opts = (None, opts')"
  shows "ts \<noteq> [] \<and> distinct ts \<and>
    (\<exists>ls. Layers img = Inr ls \<and> list_all readable ls \<and>
       extracted opts opts' = picks (trimmed ts) {} (concat (map layer_entries (rev ls))))"
proof -
  from assms have ne: "ts \<noteq> []" and d: "check_duplicates ts {} = None"
    by (auto simp: Extract_def targets_list_def split: if_splits option.splits)
  from assms ne d obtain ls st where
    ls: "Layers img = Inr ls"
    and r: "read_layers ts (rev ls) \<lparr>processedTargets = {}, tw = Destination opts\<rparr> = (None, st)"
    and o: "opts' = opts\<lparr>Destination := tw st\<rparr>"
    by (auto simp: Extract_def targets_list_def split: sum.splits prod.splits)
  from read_layers_None [OF r] o have "list_all readable ls"
    and "extracted opts opts' = picks (trimmed ts) {} (concat (map layer_entries (rev ls)))"
    by (simp_all add: extracted_def)
  with ne d ls show ?thesis by (simp add: check_duplicates_None)
qed

lemma Extract_succeeds:
  assumes "Tarball opts = None" "Targets opts = Some ts" "ts \<noteq> []" "distinct ts"
    "Layers img = Inr ls" "list_all readable ls" "fault_free (Destination opts)"
  shows "\<exists>opts'. Extract X img opts = (None, opts')"
proof -
  from assms(6) have "list_all readable (rev ls)" by (simp add: list_all_iff)
  from read_layers_fault_free [of "\<lparr>processedTargets = {}, tw = Destination opts\<rparr>" "rev ls" ts] this assms(7)
  obtain st where "read_layers ts (rev ls) \<lparr>processedTargets = {}, tw = Destination opts\<rparr> = (None, st)"
    by auto
  moreover have "check_duplicates ts {} = None"
    using assms(4) by (simp add: check_duplicates_None)
  ultimately have "Extract X img opts = (None, opts\<lparr>Destination := tw st\<rparr>)"
    using assms by (simp add: Extract_def targets_list_def)
  then show ?thesis by blast
qed

section \<open>Runs that fail\<close>

lemma read_entries_append:
  "read_entries ts (es @ es') eof st =
     (case read_entries ts es None st of
        (None, st') \<Rightarrow> read_entries ts es' eof st'
      | (Some err, st') \<Rightarrow> (Some err, st'))"
  by (induction ts es "None :: error option" st rule: read_entries.induct)
     (auto split: option.splits prod.splits)

lemma read_layers_append:
  "read_layers ts (ls @ ls') st =
     (case read_layers ts ls st of
        (None, st') \<Rightarrow> read_layers ts ls' st'
      | (Some err, st') \<Rightarrow> (Some err, st'))"
  by (induction ts ls st rule: read_layers.induct) (auto split: option.splits prod.splits)

lemma Extract_layers:
  assumes "Tarball opts = None" "Targets opts = Some ts" "ts \<noteq> []" "distinct ts" "Layers img = Inr ls"
  shows "Extract X img opts =
    (fst (read_layers ts (rev ls) \<lparr>processedTargets = {}, tw = Destination opts\<rparr>),
     opts\<lparr>Destination := tw (snd (read_layers ts (rev ls) \<lparr>processedTargets = {}, tw = Destination opts\<rparr>))\<rparr>)"
proof -
  have "check_duplicates ts {} = None"
    using assms(4) by (simp add: check_duplicates_None)
  with assms show ?thesis
    by (simp add: Extract_def targets_list_def split: prod.splits)
qed

lemma write_entry_header_fault:
  assumes "faults (tw st) = Some err # fs"
  shows "write_entry h b st =
    (Some (''could not write tar header: '' @ Name h @ '', '' @ err),
     \<lparr>processedTargets = insert (Name h) (processedTargets st), tw = (tw st)\<lparr>faults := fs\<rparr>\<rparr>)"
  using assms by (simp add: write_entry_def WriteHeader_def next_fault_def)

lemma write_entry_copy_fault:
  assumes "faults (tw st) = None # Some err # fs"
  shows "write_entry h b st =
    (Some (''could not copy '' @ Name h @ '': '' @ err),
     \<lparr>processedTargets = insert (Name h) (processedTargets st),
        tw = \<lparr>entries = entries (tw st) @ [(h, [])], faults = fs\<rparr>\<rparr>)"
  using assms by (simp add: write_entry_def WriteHeader_def Copy_def next_fault_def)

lemma write_entry_names:
  assumes "write_entry h b st = (r, st')"
  shows "\<exists>new. entries (tw st') = entries (tw st) @ new \<and> list_all (\<lambda>e. Name (fst e) = Name h) new"
  using assms
  by (auto simp: write_entry_def WriteHeader_def Copy_def next_fault_def append_body_snoc
      split: list.splits option.splits prod.splits)

lemma read_entries_names:
  assumes "read_entries ts es eof st = (r, st')"
  shows "\<exists>new. entries (tw st') = entries (tw st) @ new \<and>
           list_all (\<lambda>e. \<exists>n. Name (fst e) = Clean n) new"
  using assms
proof (induction es arbitrary: st)
  case Nil
  then show ?case by (auto split: option.splits)
next
  case (Cons e es)
  obtain hdr body where e: "e = (hdr, body)" by (cases e)
  let ?h = "hdr\<lparr>Name := Clean (Name hdr)\<rparr>"
  consider "read_entries ts es eof st = (r, st')"
    | err where "write_entry ?h body st = (Some err, st')"
    | st1 where "write_entry ?h body st = (None, st1)" "read_entries ts es eof st1 = (r, st')"
    using Cons.prems
    by (auto simp: e match_targets_eq split: if_splits option.splits prod.splits)
  then show ?case
  proof cases
    case 1
    from Cons.IH [OF 1] show ?thesis .
  next
    case 2
    from write_entry_names [OF 2] show ?thesis
      by (auto simp: list_all_iff)
  next
    case 3
    from write_entry_names [OF 3(1)] obtain new1 where
      n1: "entries (tw st1) = entries (tw st) @ new1" "list_all (\<lambda>e. Name (fst e) = Name ?h) new1"
      by blast
    from Cons.IH [OF 3(2)] obtain new2 where
      n2: "entries (tw st') = entries (tw st1) @ new2" "list_all (\<lambda>e. \<exists>n. Name (fst e) = Clean n) new2"
      by blast
    have "list_all (\<lambda>e. \<exists>n. Name (fst e) = Clean n) (new1 @ new2)"
      using n1(2) n2(2) by (auto simp: list_all_iff)
    with n1(1) n2(1) show ?thesis by auto
  qed
qed

lemma read_layers_names:
  assumes "read_layers ts ls st = (r, st')"
  shows "\<exists>new. entries (tw st') = entries (tw st) @ new \<and>
           list_all (\<lambda>e. \<exists>n. Name (fst e) = Clean n) new"
  using assms
proof (induction ts ls st rule: read_layers.induct)
  case (1 targets st)
  then show ?case by simp
next
  case (2 targets err older st)
  then show ?case by simp
next
  case (3 targets es eof older st)
  consider err where "read_entries targets es eof st = (Some err, st')"
    | st1 where "read_entries targets es eof st = (None, st1)" "read_layers targets older st1 = (r, st')"
    using "3.prems" by (auto split: option.splits prod.splits)
  then show ?case
  proof cases
    case 1
    from read_entries_names [OF 1] show ?thesis .
  next
    case 2
    from read_entries_names [OF 2(1)] obtain new1 where
      n1: "entries (tw st1) = entries (tw st) @ new1" "list_all (\<lambda>e. \<exists>n. Name (fst e) = Clean n) new1"
      by blast
    from "3.IH" [OF 2(1) [symmetric] refl 2(2)] obtain new2 where
      n2: "entries (tw st') = entries (tw st1) @ new2" "list_all (\<lambda>e. \<exists>n. Name (fst e) = Clean n) new2"
      by blast
    have "list_all (\<lambda>e. \<exists>n. Name (fst e) = Clean n) (new1 @ new2)"
      using n1(2) n2(2) by (auto simp: list_all_iff)
    with n1(1) n2(1) show ?thesis by auto
  qed
qed

lemma extracted_names_clean:
  "list_all (\<lambda>e. \<exists>n. Name (fst e) = Clean n) (extracted opts (snd (Extract X img opts)))"
proof (cases "Tarball opts = None \<and> targets_list (Targets opts) \<noteq> [] \<and>
    check_duplicates (targets_list (Targets opts)) {} = None \<and> (\<exists>ls. Layers img = Inr ls)")
  case True
  then obtain ls where ls: "Layers img = Inr ls" by blast
  obtain r st where
    r: "read_layers (targets_list (Targets opts)) (rev ls) \<lparr>processedTargets = {}, tw = Destination opts\<rparr> = (r, st)"
    by (cases "read_layers (targets_list (Targets opts)) (rev ls) \<lparr>processedTargets = {}, tw = Destination opts\<rparr>")
  from True ls r have "snd (Extract X img opts) = opts\<lparr>Destination := tw st\<rparr>"
    by (auto simp: Extract_def targets_list_def split: option.splits)
  with read_layers_names [OF r] show ?thesis
    by (auto simp: extracted_def)
next
  case False
  then have "Destination (snd (Extract X img opts)) = Destination opts"
    by (auto simp: Extract_def targets_list_def split: option.splits sum.splits prod.splits)
  then show ?thesis by (simp add: extracted_def)
qed

section \<open>Overlay precedence and the bound on the output\<close>

lemma run_None: "fst r = None \<Longrightarrow> r = (None, snd r)"
  by (cases r) simp

text \<open>
  C1. Let a target \<open>t\<close> be requested, \<open>p\<close> its string without the leading separator.
  Let some layer define \<open>p\<close> by a content-bearing entry (no directory, size not zero,
  so in particular by a non-empty regular file), let \<open>(h, c)\<close> be the first such entry
  of that layer, and let no more recent layer define \<open>p\<close>. Then a successful
  extraction writes exactly one entry named \<open>p\<close>: the header \<open>h\<close> under its cleaned
  name, with the content \<open>c\<close> of that most recent defining layer. Whatever the older
  layers hold for \<open>p\<close>, and however many of them do, none of it is written.
\<close>

theorem overlay_precedence:
  assumes "Tarball opts = None" "Targets opts = Some ts" "t \<in> set ts"
    and "Layers img = Inr (older @ Inr (es, eof) # newer)"
    and "find (entry_defines (TrimPrefix t ''/'')) es = Some (h, c)"
    and "list_all (\<lambda>l. \<not> layer_defines (TrimPrefix t ''/'') l) newer"
    and "Extract X img opts = (None, opts')"
  shows "filter (\<lambda>e. Name (fst e) = TrimPrefix t ''/'') (extracted opts opts')
           = [(h\<lparr>Name := TrimPrefix t ''/''\<rparr>, c)]"
proof -
  let ?p = "TrimPrefix t ''/''"
  from Extract_None [OF assms(1,2,7)] assms(4) have
    x: "extracted opts opts' =
          picks (trimmed ts) {} (concat (map layer_entries (rev (older @ Inr (es, eof) # newer))))"
    by auto
  have "list_all (\<lambda>l. \<not> layer_defines ?p l) (rev newer)"
    using assms(6) by (simp add: list_all_iff)
  then have "find (entry_defines ?p) (concat (map layer_entries (rev newer))) = None"
    by (rule find_concat_None)
  then have "find (entry_defines ?p) (concat (map layer_entries (rev (older @ Inr (es, eof) # newer))))
      = Some (h, c)"
    using assms(5) by (simp add: find_append layer_entries_def)
  moreover have "?p \<in> trimmed ts" using assms(3) by (auto simp: trimmed_def)
  ultimately show ?thesis by (simp add: x picks_filter)
qed

text \<open>
  The spec's scenario: \<open>x\<close> is \<open>old\<close> in the older layer and \<open>new\<close> in the recent one;
  the archive holds \<open>new\<close> for \<open>x\<close> and nothing else.
\<close>

theorem overlay_precedence_witness:
  "filter (\<lambda>e. Name (fst e) = ''x'')
     (extracted (opts_for [''x'', ''y'', ''z''])
        (snd (Extract ExportStub image01 (opts_for [''x'', ''y'', ''z''])))) = [regfile ''x'' ''new'']"
proof -
  let ?opts = "opts_for [''x'', ''y'', ''z'']"
  have 1: "Tarball ?opts = None" and 2: "Targets ?opts = Some [''x'', ''y'', ''z'']"
    by (simp_all add: opts_for_def)
  have 3: "''x'' \<in> set [''x'', ''y'', ''z'']" by simp
  have 4: "Layers image01 = Inr ([layer0] @ Inr ([regfile ''./x'' ''new'', regfile ''y'' ''data''], None) # [])"
    by (simp add: image01_def layer1_def)
  have 5: "find (entry_defines (TrimPrefix ''x'' ''/'')) [regfile ''./x'' ''new'', regfile ''y'' ''data'']
      = Some (fst (regfile ''./x'' ''new''), ''new'')"
    by code_simp
  have 6: "list_all (\<lambda>l. \<not> layer_defines (TrimPrefix ''x'' ''/'') l) []" by simp
  have "fst (Extract ExportStub image01 ?opts) = None" by code_simp
  then have 7: "Extract ExportStub image01 ?opts = (None, snd (Extract ExportStub image01 ?opts))"
    by (rule run_None)
  have t: "TrimPrefix ''x'' ''/'' = ''x''" by code_simp
  from overlay_precedence [OF 1 2 3 4 5 6 7] show ?thesis
    by (simp add: t regfile_def)
qed

text \<open>
  C4. A successful extraction writes at most as many entries as targets were requested;
  the names of the written entries, which are cleaned names, are pairwise distinct; and
  each of them is a requested target without its one leading separator.
\<close>

theorem completeness_bound:
  assumes "Tarball opts = None" "Targets opts = Some ts" "Extract X img opts = (None, opts')"
  shows "length (extracted opts opts') \<le> length ts \<and>
         distinct (map (\<lambda>e. Name (fst e)) (extracted opts opts')) \<and>
         list_all (\<lambda>e. \<exists>t \<in> set ts. Name (fst e) = TrimPrefix t ''/'') (extracted opts opts')"
proof -
  from Extract_None [OF assms] obtain ls where
    x: "extracted opts opts' = picks (trimmed ts) {} (concat (map layer_entries (rev ls)))"
    by auto
  let ?names = "map (\<lambda>e. Name (fst e)) (extracted opts opts')"
  have d: "distinct ?names" by (simp add: x picks_distinct)
  have sub: "set ?names \<subseteq> trimmed ts"
    using picks_names [of _ "trimmed ts" "{}"] by (auto simp: x)
  have "length (extracted opts opts') = card (set ?names)"
    using distinct_card [OF d] by simp
  also have "\<dots> \<le> card (trimmed ts)"
    using sub by (intro card_mono) (simp_all add: trimmed_def)
  also have "\<dots> \<le> length ts"
    unfolding trimmed_def using card_image_le [of "set ts"] card_length [of ts]
    by (meson List.finite_set le_trans)
  finally have "length (extracted opts opts') \<le> length ts" .
  moreover have "list_all (\<lambda>e. \<exists>t \<in> set ts. Name (fst e) = TrimPrefix t ''/'') (extracted opts opts')"
    using sub by (auto simp: trimmed_def list_all_iff)
  ultimately show ?thesis using d by simp
qed

theorem completeness_bound_witness:
  "length (extracted (opts_for [''x'', ''y'', ''z''])
      (snd (Extract ExportStub image01 (opts_for [''x'', ''y'', ''z''])))) \<le> 3 \<and>
   distinct (map (\<lambda>e. Name (fst e)) (extracted (opts_for [''x'', ''y'', ''z''])
      (snd (Extract ExportStub image01 (opts_for [''x'', ''y'', ''z''])))))"
proof -
  let ?opts = "opts_for [''x'', ''y'', ''z'']"
  have 1: "Tarball ?opts = None" and 2: "Targets ?opts = Some [''x'', ''y'', ''z'']"
    by (simp_all add: opts_for_def)
  have "fst (Extract ExportStub image01 ?opts) = None" by code_simp
  then have 3: "Extract ExportStub image01 ?opts = (None, snd (Extract ExportStub image01 ?opts))"
    by (rule run_None)
  from completeness_bound [OF 1 2 3] show ?thesis by simp
qed

section \<open>Targets that are absent, and the spelling of a target\<close>

lemma extracted_filter:
  assumes "Tarball opts = None" "Targets opts = Some ts" "Layers img = Inr ls"
    and "Extract X img opts = (None, opts')"
  shows "filter (\<lambda>e. Name (fst e) = p) (extracted opts opts') =
     (if p \<in> trimmed ts
      then (case find (entry_defines p) (concat (map layer_entries (rev ls))) of
              None \<Rightarrow> []
            | Some (h, c) \<Rightarrow> [(h\<lparr>Name := p\<rparr>, c)])
      else [])"
  using Extract_None [OF assms(1,2,4)] assms(3) by (auto simp: picks_filter)

lemma extracted_names:
  assumes "Tarball opts = None" "Targets opts = Some ts" "Extract X img opts = (None, opts')"
  shows "list_all (\<lambda>e. Name (fst e) \<in> trimmed ts) (extracted opts opts')"
  using Extract_None [OF assms] picks_names [of _ "trimmed ts" "{}"]
  by (auto simp: list_all_iff)

lemma filter_all: "list_all P xs \<Longrightarrow> filter P xs = xs"
  by (induction xs) auto

text \<open>
  C7. Let the extraction meet no failure: the targets pass validation, the image gives
  its layers, every layer opens and reads to its end, no write fails. Then \<open>Extract\<close>
  returns no error, whether or not the targets are found; and a target that no layer
  defines has no entry in the archive.
\<close>

theorem absent_target_omitted:
  assumes "Tarball opts = None" "Targets opts = Some ts" "ts \<noteq> []" "distinct ts"
    and "Layers img = Inr ls" "list_all readable ls" "fault_free (Destination opts)"
    and "t \<in> set ts" "list_all (\<lambda>l. \<not> layer_defines (TrimPrefix t ''/'') l) ls"
  shows "fst (Extract X img opts) = None \<and>
         filter (\<lambda>e. Name (fst e) = TrimPrefix t ''/'') (extracted opts (snd (Extract X img opts))) = []"
proof -
  from Extract_succeeds [OF assms(1-7)] obtain opts' where
    ok: "Extract X img opts = (None, opts')" by blast
  have "list_all (\<lambda>l. \<not> layer_defines (TrimPrefix t ''/'') l) (rev ls)"
    using assms(9) by (simp add: list_all_iff)
  then have "find (entry_defines (TrimPrefix t ''/'')) (concat (map layer_entries (rev ls))) = None"
    by (rule find_concat_None)
  with extracted_filter [OF assms(1,2,5) ok] show ?thesis by (simp add: ok)
qed

text \<open>
  The spec's scenario: \<open>z\<close> is requested and in no layer; the run succeeds and the
  archive holds \<open>x\<close> and \<open>y\<close> only.
\<close>

theorem absent_target_omitted_witness:
  "fst (Extract ExportStub image01 (opts_for [''x'', ''y'', ''z''])) = None \<and>
   filter (\<lambda>e. Name (fst e) = ''z'')
     (extracted (opts_for [''x'', ''y'', ''z''])
        (snd (Extract ExportStub image01 (opts_for [''x'', ''y'', ''z''])))) = [] \<and>
   map (\<lambda>e. Name (fst e))
     (extracted (opts_for [''x'', ''y'', ''z''])
        (snd (Extract ExportStub image01 (opts_for [''x'', ''y'', ''z''])))) = [''x'', ''y'']"
proof -
  have 1: "Tarball (opts_for [''x'', ''y'', ''z'']) = None"
    and 2: "Targets (opts_for [''x'', ''y'', ''z'']) = Some [''x'', ''y'', ''z'']"
    and 7: "fault_free (Destination (opts_for [''x'', ''y'', ''z'']))"
    by (simp_all add: opts_for_def sink0_def fault_free_def)
  have 5: "Layers image01 = Inr [layer0, layer1]" by (simp add: image01_def)
  have 6: "list_all readable [layer0, layer1]"
    by (simp add: readable_def layer0_def layer1_def)
  have 9: "list_all (\<lambda>l. \<not> layer_defines (TrimPrefix ''z'' ''/'') l) [layer0, layer1]"
    by code_simp
  have z: "TrimPrefix ''z'' ''/'' = ''z''" by code_simp
  have m: "map (\<lambda>e. Name (fst e))
     (extracted (opts_for [''x'', ''y'', ''z''])
        (snd (Extract ExportStub image01 (opts_for [''x'', ''y'', ''z''])))) = [''x'', ''y'']"
    by code_simp
  from absent_target_omitted [OF 1 2 _ _ 5 6 7 _ 9, of ExportStub] m show ?thesis
    by (simp add: z)
qed

lemma Clean_dot_a_b: "Clean ''./a/b'' = ''a/b''"
  by (simp add: Clean_def clean_elem_def)

lemma single_target:
  assumes "Tarball opts = None" "Targets opts = Some [t]" "Layers img = Inr ls"
    and "list_all readable ls" "fault_free (Destination opts)"
    and "find (entry_defines (TrimPrefix t ''/'')) (concat (map layer_entries (rev ls))) = Some (h, c)"
  shows "fst (Extract X img opts) = None \<and>
         extracted opts (snd (Extract X img opts)) = [(h\<lparr>Name := TrimPrefix t ''/''\<rparr>, c)]"
proof -
  from Extract_succeeds [OF assms(1,2) _ _ assms(3-5), of X] obtain opts' where
    ok: "Extract X img opts = (None, opts')" by auto
  have "list_all (\<lambda>e. Name (fst e) = TrimPrefix t ''/'') (extracted opts opts')"
    using extracted_names [OF assms(1,2) ok] by (simp add: trimmed_def)
  then have "extracted opts opts' = filter (\<lambda>e. Name (fst e) = TrimPrefix t ''/'') (extracted opts opts')"
    by (simp add: filter_all)
  also have "\<dots> = [(h\<lparr>Name := TrimPrefix t ''/''\<rparr>, c)]"
    using extracted_filter [OF assms(1,2,3) ok, of "TrimPrefix t ''/''"] assms(6)
    by (simp add: trimmed_def)
  finally show ?thesis by (simp add: ok)
qed

text \<open>
  C5. Take two runs over the same image, one with the single target \<open>a/b\<close> and one
  with the single target \<open>/a/b\<close>. Let the layers be readable and the writers free of
  faults, and let an entry named \<open>./a/b\<close>, which the entry loop does not skip, be the
  first entry for \<open>a/b\<close> in the most recent layer that defines \<open>a/b\<close>. Then both runs
  succeed, and both write exactly that entry, under the name \<open>a/b\<close> and with the same
  content.
\<close>

theorem leading_separator_irrelevant:
  assumes "Tarball opts1 = None" "Targets opts1 = Some [''a/b'']" "fault_free (Destination opts1)"
    and "Tarball opts2 = None" "Targets opts2 = Some [''/a/b'']" "fault_free (Destination opts2)"
    and "Layers img = Inr ls" "ls = older @ Inr (es @ (h, c) # es', eof) # newer"
    and "list_all readable ls"
    and "Name h = ''./a/b''" "Typeflag h \<noteq> TypeDir" "Size h \<noteq> 0"
    and "\<not> list_ex (entry_defines ''a/b'') es"
    and "list_all (\<lambda>l. \<not> layer_defines ''a/b'' l) newer"
  shows "fst (Extract X img opts1) = None \<and> fst (Extract X img opts2) = None \<and>
         extracted opts1 (snd (Extract X img opts1)) = [(h\<lparr>Name := ''a/b''\<rparr>, c)] \<and>
         extracted opts2 (snd (Extract X img opts2)) = [(h\<lparr>Name := ''a/b''\<rparr>, c)]"
proof -
  have a: "find (entry_defines ''a/b'') es = None"
    using assms(13) by (simp add: find_None_iff list_ex_iff)
  have b: "entry_defines ''a/b'' (h, c)"
    using assms(10-12) by (simp add: entry_defines_def Clean_dot_a_b)
  have n: "find (entry_defines ''a/b'') (concat (map layer_entries (rev newer))) = None"
    using assms(14) by (intro find_concat_None) (simp add: list_all_iff)
  have f: "find (entry_defines ''a/b'') (concat (map layer_entries (rev ls))) = Some (h, c)"
    by (simp add: assms(8) find_append layer_entries_def a b n)
  have t1: "TrimPrefix ''a/b'' ''/'' = ''a/b''" and t2: "TrimPrefix ''/a/b'' ''/'' = ''a/b''"
    by (simp_all add: TrimPrefix_def HasPrefix_def)
  from single_target [OF assms(1,2,7,9,3), of h c X]
       single_target [OF assms(4,5,7,9,6), of h c X] f
  show ?thesis by (simp add: t1 t2)
qed

theorem leading_separator_irrelevant_witness:
  "fst (Extract ExportStub image_ab (opts_for [''a/b''])) = None \<and>
   fst (Extract ExportStub image_ab (opts_for [''/a/b''])) = None \<and>
   extracted (opts_for [''a/b'']) (snd (Extract ExportStub image_ab (opts_for [''a/b'']))) =
     [regfile ''a/b'' ''bin''] \<and>
   extracted (opts_for [''/a/b'']) (snd (Extract ExportStub image_ab (opts_for [''/a/b'']))) =
     [regfile ''a/b'' ''bin'']"
proof -
  have 1: "Tarball (opts_for ts) = None" and 2: "Targets (opts_for ts) = Some ts"
    and 3: "fault_free (Destination (opts_for ts))" for ts
    by (simp_all add: opts_for_def sink0_def fault_free_def)
  have 7: "Layers image_ab = Inr [Inr ([regfile ''./a/b'' ''bin''], None)]"
    by (simp add: image_ab_def)
  have 8: "[Inr ([regfile ''./a/b'' ''bin''], None)] =
      [] @ Inr ([] @ (fst (regfile ''./a/b'' ''bin''), ''bin'') # [], None) # ([] :: layer list)"
    by (simp add: regfile_def)
  have 9: "list_all readable [Inr ([regfile ''./a/b'' ''bin''], None)]"
    by (simp add: readable_def)
  have 10: "Name (fst (regfile ''./a/b'' ''bin'')) = ''./a/b''"
    and 11: "Typeflag (fst (regfile ''./a/b'' ''bin'')) \<noteq> TypeDir"
    and 12: "Size (fst (regfile ''./a/b'' ''bin'')) \<noteq> 0"
    by (simp_all add: regfile_def TypeReg_def TypeDir_def)
  have 13: "\<not> list_ex (entry_defines ''a/b'') []" by simp
  have 14: "list_all (\<lambda>l. \<not> layer_defines ''a/b'' l) []" by simp
  from leading_separator_irrelevant [OF 1 2 3 1 2 3 7 8 9 10 11 12 13 14, of ExportStub]
  show ?thesis by (simp add: regfile_def)
qed

lemma read_entries_cong:
  assumes "\<And>n. (Clean n \<in> trimmed ts) = (Clean n \<in> trimmed ts')"
  shows "read_entries ts es eof st = read_entries ts' es eof st"
proof (induction es arbitrary: st)
  case Nil
  then show ?case by simp
next
  case (Cons e es)
  obtain hdr body where e: "e = (hdr, body)" by (cases e)
  show ?case
    using assms [of "Name hdr"] Cons.IH
    by (simp add: e match_targets_eq split: prod.splits option.splits)
qed

lemma read_layers_cong:
  assumes "\<And>n. (Clean n \<in> trimmed ts) = (Clean n \<in> trimmed ts')"
  shows "read_layers ts ls st = read_layers ts' ls st"
proof (induction ls arbitrary: st)
  case Nil
  then show ?case by simp
next
  case (Cons l ls)
  show ?case
  proof (cases l)
    case (Inl err)
    then show ?thesis by simp
  next
    case (Inr s)
    obtain es eof where s: "s = (es, eof)" by (cases s)
    show ?thesis
      using Cons.IH read_entries_cong [OF assms, of es eof st]
      by (simp add: Inr s split: prod.splits option.splits)
  qed
qed

text \<open>
  C10, amended. Entry names are cleaned before the comparison; a target only loses one
  leading separator. So when what is left of a target after that has a \<open>./\<close> prefix,
  two separators in a row, or a separator at its end without being the root \<open>/\<close>
  itself, no cleaned name equals it, and whatever the layers hold and however the run
  ends, the archive has no entry for it. The target is absent silently: among valid
  targets of which others remain, leaving it out changes neither the error returned nor
  the archive.
\<close>

theorem unclean_target_never_matches:
  assumes "HasPrefix (TrimPrefix t ''/'') ''./'' \<or> double_sep (TrimPrefix t ''/'') \<or>
           (trailing_sep (TrimPrefix t ''/'') \<and> TrimPrefix t ''/'' \<noteq> ''/'')"
  shows "(\<forall>n. Clean n \<noteq> TrimPrefix t ''/'') \<and>
         filter (\<lambda>e. Name (fst e) = TrimPrefix t ''/'')
           (extracted opts (snd (Extract X img opts))) = [] \<and>
         (Tarball opts = None \<and> Targets opts = Some ts \<and> distinct ts \<and> removeAll t ts \<noteq> [] \<longrightarrow>
            fst (Extract X img (opts\<lparr>Targets := Some (removeAll t ts)\<rparr>)) = fst (Extract X img opts) \<and>
            Destination (snd (Extract X img (opts\<lparr>Targets := Some (removeAll t ts)\<rparr>))) =
              Destination (snd (Extract X img opts)))"
proof -
  have n: "Clean n \<noteq> TrimPrefix t ''/''" for n
    using assms Clean_shape [of n] by auto
  have "list_all (\<lambda>e. Name (fst e) \<noteq> TrimPrefix t ''/'') (extracted opts (snd (Extract X img opts)))"
    using extracted_names_clean [of opts X img] n by (fastforce simp: list_all_iff)
  then have f: "filter (\<lambda>e. Name (fst e) = TrimPrefix t ''/'')
      (extracted opts (snd (Extract X img opts))) = []"
    by (simp add: filter_empty_conv list_all_iff)
  have r: "fst (Extract X img (opts\<lparr>Targets := Some (removeAll t ts)\<rparr>)) = fst (Extract X img opts) \<and>
      Destination (snd (Extract X img (opts\<lparr>Targets := Some (removeAll t ts)\<rparr>))) =
        Destination (snd (Extract X img opts))"
    if h: "Tarball opts = None" "Targets opts = Some ts" "distinct ts" "removeAll t ts \<noteq> []"
  proof -
    have c: "(Clean n \<in> trimmed (removeAll t ts)) = (Clean n \<in> trimmed ts)" for n
      using n [of n] by (auto simp: trimmed_def)
    have d: "check_duplicates ts {} = None" "check_duplicates (removeAll t ts) {} = None"
      using h(3) by (simp_all add: check_duplicates_None distinct_removeAll)
    have ne: "ts \<noteq> []" using h(4) by auto
    show ?thesis
      using h(1,2,4) ne d read_layers_cong [of "removeAll t ts" ts, OF c]
      by (simp add: Extract_def targets_list_def split: sum.splits prod.splits)
  qed
  from n f r show ?thesis by blast
qed

text \<open>
  The targets \<open>./a/b\<close> and \<open>a//b\<close> against a layer whose entry cleans to \<open>a/b\<close>:
  nothing is extracted for either. The target \<open>./x\<close> beside the target \<open>x\<close>: the run
  is the run for \<open>x\<close> alone.
\<close>

theorem unclean_target_never_matches_witness:
  "(\<forall>n. Clean n \<noteq> ''./a/b'') \<and>
   filter (\<lambda>e. Name (fst e) = ''./a/b'')
     (extracted (opts_for [''./a/b'']) (snd (Extract ExportStub image_ab (opts_for [''./a/b''])))) = [] \<and>
   (\<forall>n. Clean n \<noteq> ''a//b'') \<and>
   filter (\<lambda>e. Name (fst e) = ''a//b'')
     (extracted (opts_for [''a//b'']) (snd (Extract ExportStub image_ab (opts_for [''a//b''])))) = [] \<and>
   fst (Extract ExportStub image01 (opts_for [''x''])) =
     fst (Extract ExportStub image01 (opts_for [''x'', ''./x''])) \<and>
   Destination (snd (Extract ExportStub image01 (opts_for [''x'']))) =
     Destination (snd (Extract ExportStub image01 (opts_for [''x'', ''./x''])))"
proof -
  have t1: "TrimPrefix ''./a/b'' ''/'' = ''./a/b''" and t2: "TrimPrefix ''a//b'' ''/'' = ''a//b''"
    and t3: "TrimPrefix ''./x'' ''/'' = ''./x''"
    by (simp_all add: TrimPrefix_def HasPrefix_def)
  have 1: "HasPrefix (TrimPrefix ''./a/b'' ''/'') ''./'' \<or> double_sep (TrimPrefix ''./a/b'' ''/'') \<or>
      (trailing_sep (TrimPrefix ''./a/b'' ''/'') \<and> TrimPrefix ''./a/b'' ''/'' \<noteq> ''/'')"
    by (simp add: t1 HasPrefix_def)
  have 2: "HasPrefix (TrimPrefix ''a//b'' ''/'') ''./'' \<or> double_sep (TrimPrefix ''a//b'' ''/'') \<or>
      (trailing_sep (TrimPrefix ''a//b'' ''/'') \<and> TrimPrefix ''a//b'' ''/'' \<noteq> ''/'')"
    by (simp add: t2)
  have 3: "HasPrefix (TrimPrefix ''./x'' ''/'') ''./'' \<or> double_sep (TrimPrefix ''./x'' ''/'') \<or>
      (trailing_sep (TrimPrefix ''./x'' ''/'') \<and> TrimPrefix ''./x'' ''/'' \<noteq> ''/'')"
    by (simp add: t3 HasPrefix_def)
  have o: "Tarball (opts_for [''x'', ''./x'']) = None \<and>
      Targets (opts_for [''x'', ''./x'']) = Some [''x'', ''./x''] \<and>
      distinct [''x'', ''./x''] \<and> removeAll ''./x'' [''x'', ''./x''] \<noteq> []"
    by (simp add: opts_for_def)
  have u: "(opts_for [''x'', ''./x''])\<lparr>Targets := Some [''x'']\<rparr> = opts_for [''x'']"
    by (simp add: opts_for_def)
  note T1 = unclean_target_never_matches [OF 1, of "opts_for [''./a/b'']" ExportStub image_ab]
  note T2 = unclean_target_never_matches [OF 2, of "opts_for [''a//b'']" ExportStub image_ab]
  note A = T1 [THEN conjunct1] T1 [THEN conjunct2, THEN conjunct1]
  note B = T2 [THEN conjunct1] T2 [THEN conjunct2, THEN conjunct1]
  note C = unclean_target_never_matches [OF 3, where opts = "opts_for [''x'', ''./x'']"
      and X = ExportStub and img = image01 and ts = "[''x'', ''./x'']",
      THEN conjunct2, THEN conjunct2, rule_format, OF o]
  from A B C show ?thesis by (simp add: t1 t2 u)
qed

text \<open>
  The claim as it was stated fails for a doubled separator at the start of a target:
  trimming removes one of the two, and the rest is a clean rooted path, which equals
  the cleaned name of an entry with a rooted name.
\<close>

theorem doubled_leading_separator_matches:
  "double_sep ''//a/b'' \<and>
   extracted (opts_for [''//a/b'']) (snd (Extract ExportStub image_rooted (opts_for [''//a/b''])))
     = [regfile ''/a/b'' ''bin'']"
  by code_simp

section \<open>Failures and the whole-image export\<close>

text \<open>
  C8, amended. Let the targets pass validation and the image give its layers, and let
  the layers more recent than \<open>l\<close> have been read without failure. Then a failure at
  \<open>l\<close> ends the extraction there, whatever the older layers and the rest of the stream
  hold, with the failing call's error behind a fixed prefix:
  \<^item> \<open>l\<close> does not open: \<open>reading layer contents: err\<close>, and the archive is as the
    more recent layers left it;
  \<^item> the stream of \<open>l\<close> breaks off after entries read without failure:
    \<open>reading tar: err\<close>, and the archive is as those entries left it;
  \<^item> writing the header of a matching entry fails:
    \<open>could not write tar header: name, err\<close> with the cleaned name of the entry;
  \<^item> copying the body of a matching entry fails: \<open>could not copy name: err\<close>, and
    the archive ends with the header just written.
  The prefix names the path for the two write failures; it names no layer.
\<close>

theorem io_failure_aborts:
  assumes "Tarball opts = None" "Targets opts = Some ts" "ts \<noteq> []" "distinct ts"
    and "Layers img = Inr ls" and "rev ls = recent @ l # older"
    and "read_layers ts recent \<lparr>processedTargets = {}, tw = Destination opts\<rparr> = (None, st)"
  shows
    "(\<forall>err. l = Inl err \<longrightarrow>
        Extract X img opts =
          (Some (''reading layer contents: '' @ err), opts\<lparr>Destination := tw st\<rparr>)) \<and>
     (\<forall>es err st1. l = Inr (es, Some err) \<and> read_entries ts es None st = (None, st1) \<longrightarrow>
        Extract X img opts = (Some (''reading tar: '' @ err), opts\<lparr>Destination := tw st1\<rparr>)) \<and>
     (\<forall>es hdr body rest eof st1 t err fs.
        l = Inr (es @ (hdr, body) # rest, eof) \<and> read_entries ts es None st = (None, st1) \<and>
        Typeflag hdr \<noteq> TypeDir \<and> Size hdr \<noteq> 0 \<and> Clean (Name hdr) \<notin> processedTargets st1 \<and>
        t \<in> set ts \<and> Clean (Name hdr) = TrimPrefix t ''/'' \<and> faults (tw st1) = Some err # fs \<longrightarrow>
        Extract X img opts =
          (Some (''could not write tar header: '' @ Clean (Name hdr) @ '', '' @ err),
           opts\<lparr>Destination := (tw st1)\<lparr>faults := fs\<rparr>\<rparr>)) \<and>
     (\<forall>es hdr body rest eof st1 t err fs.
        l = Inr (es @ (hdr, body) # rest, eof) \<and> read_entries ts es None st = (None, st1) \<and>
        Typeflag hdr \<noteq> TypeDir \<and> Size hdr \<noteq> 0 \<and> Clean (Name hdr) \<notin> processedTargets st1 \<and>
        t \<in> set ts \<and> Clean (Name hdr) = TrimPrefix t ''/'' \<and> faults (tw st1) = None # Some err # fs \<longrightarrow>
        Extract X img opts =
          (Some (''could not copy '' @ Clean (Name hdr) @ '': '' @ err),
           opts\<lparr>Destination :=
             \<lparr>entries = entries (tw st1) @ [(hdr\<lparr>Name := Clean (Name hdr)\<rparr>, [])], faults = fs\<rparr>\<rparr>))"
proof -
  note E = Extract_layers [OF assms(1-5), of X]
  have L: "read_layers ts (rev ls) \<lparr>processedTargets = {}, tw = Destination opts\<rparr> =
      read_layers ts (l # older) st"
    by (simp add: assms(6,7) read_layers_append)
  have A: "Extract X img opts =
      (Some (''reading layer contents: '' @ err), opts\<lparr>Destination := tw st\<rparr>)"
    if "l = Inl err" for err
    using that by (simp add: E L)
  have B: "Extract X img opts = (Some (''reading tar: '' @ err), opts\<lparr>Destination := tw st1\<rparr>)"
    if "l = Inr (es, Some err)" "read_entries ts es None st = (None, st1)" for es err st1
    using that read_entries_append [of ts es "[]" "Some err" st] by (simp add: E L)
  have M: "read_entries ts (es @ (hdr, body) # rest) eof st =
      (case write_entry (hdr\<lparr>Name := Clean (Name hdr)\<rparr>) body st1 of
         (Some err, st') \<Rightarrow> (Some err, st')
       | (None, st') \<Rightarrow> read_entries ts rest eof st')"
    if "read_entries ts es None st = (None, st1)" "Typeflag hdr \<noteq> TypeDir" "Size hdr \<noteq> 0"
      "Clean (Name hdr) \<notin> processedTargets st1" "t \<in> set ts" "Clean (Name hdr) = TrimPrefix t ''/''"
    for es hdr body rest eof st1 t
  proof -
    have "Clean (Name hdr) \<in> trimmed ts"
      using that(5,6) by (auto simp: trimmed_def)
    then show ?thesis
      using that(1-4) by (simp add: read_entries_append match_targets_eq Clean_not_Nil)
  qed
  have C: "Extract X img opts =
      (Some (''could not write tar header: '' @ Clean (Name hdr) @ '', '' @ err),
       opts\<lparr>Destination := (tw st1)\<lparr>faults := fs\<rparr>\<rparr>)"
    if "l = Inr (es @ (hdr, body) # rest, eof)" "read_entries ts es None st = (None, st1)"
      "Typeflag hdr \<noteq> TypeDir" "Size hdr \<noteq> 0" "Clean (Name hdr) \<notin> processedTargets st1"
      "t \<in> set ts" "Clean (Name hdr) = TrimPrefix t ''/''" "faults (tw st1) = Some err # fs"
    for es hdr body rest eof st1 t err fs
    using that(1) M [OF that(2-7)] write_entry_header_fault [OF that(8)]
    by (simp add: E L)
  have D: "Extract X img opts =
      (Some (''could not copy '' @ Clean (Name hdr) @ '': '' @ err),
       opts\<lparr>Destination :=
         \<lparr>entries = entries (tw st1) @ [(hdr\<lparr>Name := Clean (Name hdr)\<rparr>, [])], faults = fs\<rparr>\<rparr>)"
    if "l = Inr (es @ (hdr, body) # rest, eof)" "read_entries ts es None st = (None, st1)"
      "Typeflag hdr \<noteq> TypeDir" "Size hdr \<noteq> 0" "Clean (Name hdr) \<notin> processedTargets st1"
      "t \<in> set ts" "Clean (Name hdr) = TrimPrefix t ''/''" "faults (tw st1) = None # Some err # fs"
    for es hdr body rest eof st1 t err fs
    using that(1) M [OF that(2-7)] write_entry_copy_fault [OF that(8)]
    by (simp add: E L)
  show ?thesis
    apply (intro conjI allI impI)
       apply (erule A)
      apply (elim conjE, erule (1) B)
     apply (elim conjE, erule (7) C)
    apply (elim conjE, erule (7) D)
    done
qed

text \<open>
  One run for each kind of failure: the most recent layer does not open; the stream of
  the most recent layer breaks off after \<open>y\<close> was copied; the write of the header of
  \<open>y\<close> fails; the copy of the body of \<open>y\<close> fails.
\<close>

theorem io_failure_aborts_witness:
  "Extract ExportStub image_unopened_new (opts_for [''x'']) =
     (Some ''reading layer contents: EOF'', opts_for [''x'']) \<and>
   Extract ExportStub image_truncated (opts_for [''y'']) =
     (Some ''reading tar: unexpected EOF'',
      (opts_for [''y''])\<lparr>Destination := \<lparr>entries = [regfile ''y'' ''data''], faults = []\<rparr>\<rparr>) \<and>
   Extract ExportStub image01 (opts_faulty [Some ''disk full''] [''y'']) =
     (Some ''could not write tar header: y, disk full'', opts_faulty [] [''y'']) \<and>
   Extract ExportStub image01 (opts_faulty [None, Some ''disk full''] [''y'']) =
     (Some ''could not copy y: disk full'',
      (opts_faulty [] [''y''])\<lparr>Destination := \<lparr>entries = [(fst (regfile ''y'' ''data''), [])], faults = []\<rparr>\<rparr>)"
proof -
  have o: "Tarball (opts_for ts) = None" "Targets (opts_for ts) = Some ts"
    and f: "Tarball (opts_faulty fs ts) = None" "Targets (opts_faulty fs ts) = Some ts" for fs ts
    by (simp_all add: opts_for_def opts_faulty_def)
  have s: "[t] \<noteq> []" "distinct [t]" for t :: string
    by simp_all
  have r: "read_layers ts [] st = (None, st)" for ts st
    by simp
  have y: "TrimPrefix ''y'' ''/'' = ''y''" "Clean ''y'' = ''y''"
    by (simp_all add: TrimPrefix_def HasPrefix_def Clean_def clean_elem_def)
  have A: "Extract ExportStub image_unopened_new (opts_for [''x'']) =
     (Some ''reading layer contents: EOF'', opts_for [''x''])"
  proof -
    have 5: "Layers image_unopened_new = Inr [layer0, Inl ''EOF'']"
      by (simp add: image_unopened_new_def)
    have 6: "rev [layer0, Inl ''EOF''] = [] @ Inl ''EOF'' # [layer0]" by simp
    note T = io_failure_aborts [OF o s 5 6 r, where X = ExportStub, THEN conjunct1, rule_format,
        where err = "''EOF''"]
    from T [OF refl] show ?thesis by (simp add: opts_for_def)
  qed
  have B: "Extract ExportStub image_truncated (opts_for [''y'']) =
     (Some ''reading tar: unexpected EOF'',
      (opts_for [''y''])\<lparr>Destination := \<lparr>entries = [regfile ''y'' ''data''], faults = []\<rparr>\<rparr>)"
  proof -
    have 5: "Layers image_truncated =
        Inr [layer0, Inr ([regfile ''y'' ''data''], Some ''unexpected EOF'')]"
      by (simp add: image_truncated_def)
    have 6: "rev [layer0, Inr ([regfile ''y'' ''data''], Some ''unexpected EOF'')] =
        [] @ Inr ([regfile ''y'' ''data''], Some ''unexpected EOF'') # [layer0]" by simp
    have e: "read_entries [''y''] [regfile ''y'' ''data''] None
          \<lparr>processedTargets = {}, tw = Destination (opts_for [''y''])\<rparr> =
        (None, \<lparr>processedTargets = {''y''},
                tw = \<lparr>entries = [regfile ''y'' ''data''], faults = []\<rparr>\<rparr>)"
      by (simp add: regfile_def opts_for_def sink0_def TypeReg_def TypeDir_def y
          WriteHeader_def Copy_def next_fault_def)
    note T = io_failure_aborts [OF o s 5 6 r, where X = ExportStub, THEN conjunct2, THEN conjunct1,
        rule_format, where es = "[regfile ''y'' ''data'']" and err = "''unexpected EOF''"]
    from T [OF conjI [OF refl e]] show ?thesis by simp
  qed
  have 5: "Layers image01 = Inr [layer0, layer1]"
    by (simp add: image01_def)
  have 6: "rev [layer0, layer1] = [] @ layer1 # [layer0]" by simp
  have P: "layer1 = Inr ([regfile ''./x'' ''new''] @ (fst (regfile ''y'' ''data''), ''data'') # [], None) \<and>
      read_entries [''y''] [regfile ''./x'' ''new''] None
        \<lparr>processedTargets = {}, tw = Destination (opts_faulty fs [''y''])\<rparr> =
      (None, \<lparr>processedTargets = {}, tw = Destination (opts_faulty fs [''y''])\<rparr>) \<and>
      Typeflag (fst (regfile ''y'' ''data'')) \<noteq> TypeDir \<and> Size (fst (regfile ''y'' ''data'')) \<noteq> 0 \<and>
      Clean (Name (fst (regfile ''y'' ''data''))) \<notin>
        processedTargets \<lparr>processedTargets = {}, tw = Destination (opts_faulty fs [''y''])\<rparr> \<and>
      ''y'' \<in> set [''y''] \<and> Clean (Name (fst (regfile ''y'' ''data''))) = TrimPrefix ''y'' ''/'' \<and>
      faults (tw \<lparr>processedTargets = {}, tw = Destination (opts_faulty fs [''y''])\<rparr>) = fs" for fs
    by (simp add: layer1_def regfile_def TypeReg_def TypeDir_def Clean_def clean_elem_def
        TrimPrefix_def HasPrefix_def opts_faulty_def)
  have C: "Extract ExportStub image01 (opts_faulty [Some ''disk full''] [''y'']) =
     (Some ''could not write tar header: y, disk full'', opts_faulty [] [''y''])"
  proof -
    note T = io_failure_aborts [OF f [of "[Some ''disk full'']"] s 5 6 r, where X = ExportStub,
        THEN conjunct2, THEN conjunct2, THEN conjunct1, rule_format]
    from T [OF P [of "[Some ''disk full'']"]] show ?thesis
      by (simp add: y opts_faulty_def regfile_def)
  qed
  have D: "Extract ExportStub image01 (opts_faulty [None, Some ''disk full''] [''y'']) =
     (Some ''could not copy y: disk full'',
      (opts_faulty [] [''y''])\<lparr>Destination := \<lparr>entries = [(fst (regfile ''y'' ''data''), [])], faults = []\<rparr>\<rparr>)"
  proof -
    note T = io_failure_aborts [OF f [of "[None, Some ''disk full'']"] s 5 6 r, where X = ExportStub,
        THEN conjunct2, THEN conjunct2, THEN conjunct2, rule_format]
    from T [OF P [of "[None, Some ''disk full'']"]] show ?thesis
      by (simp add: y opts_faulty_def regfile_def)
  qed
  from A B C D show ?thesis by simp
qed

text \<open>
  The claim as it was stated fails where it has the error identify the layer: when the
  older layer of an image does not open and when the more recent layer of another does
  not, the two runs return the same error.
\<close>

theorem layer_error_names_no_layer:
  "fst (Extract ExportStub image_unopened_old (opts_for [''x''])) = Some ''reading layer contents: EOF'' \<and>
   fst (Extract ExportStub image_unopened_new (opts_for [''x''])) = Some ''reading layer contents: EOF''"
  by code_simp

text \<open>
  C9. With a tarball writer set, \<open>Extract\<close> is the export of the whole image: its error
  is the export's error and the tarball writer is what the export leaves. The targets
  are not looked at, so no list of targets, nil, empty or with duplicates, gives a
  validation error; and the destination writer is not written to.
\<close>

theorem tarball_delegates:
  assumes "Tarball opts = Some w"
  shows "Extract X img opts = (fst (X img w), opts\<lparr>Tarball := Some (snd (X img w))\<rparr>) \<and>
         Targets (snd (Extract X img opts)) = Targets opts \<and>
         Destination (snd (Extract X img opts)) = Destination opts"
  using assms by (simp add: Extract_def split: prod.splits)

theorem tarball_delegates_witness:
  "Extract ExportStub image01 (opts_tarball None) =
     (None, (opts_tarball None)\<lparr>Tarball := Some [''filesystem'']\<rparr>) \<and>
   Extract ExportStub image01 (opts_tarball (Some [])) =
     (None, (opts_tarball (Some []))\<lparr>Tarball := Some [''filesystem'']\<rparr>) \<and>
   Extract ExportStub image01 (opts_tarball (Some [''x'', ''x''])) =
     (None, (opts_tarball (Some [''x'', ''x'']))\<lparr>Tarball := Some [''filesystem'']\<rparr>)"
proof -
  have t: "Tarball (opts_tarball ts) = Some []" for ts
    by (simp add: opts_tarball_def)
  from tarball_delegates [OF t, of ExportStub image01 None]
       tarball_delegates [OF t, of ExportStub image01 "Some []"]
       tarball_delegates [OF t, of ExportStub image01 "Some [''x'', ''x'']"]
  show ?thesis by (simp add: ExportStub_def)
qed

section \<open>Validation of the targets, and whiteouts\<close>

lemma check_duplicates_Some:
  "check_duplicates ts S = Some t \<Longrightarrow>
     \<exists>pre post. ts = pre @ t # post \<and> (t \<in> S \<or> t \<in> set pre) \<and> distinct pre \<and> set pre \<inter> S = {}"
proof (induction ts arbitrary: S)
  case Nil
  then show ?case by simp
next
  case (Cons a ts)
  show ?case
  proof (cases "a \<in> S")
    case True
    with Cons.prems have "a # ts = [] @ t # ts" by simp
    with True Cons.prems show ?thesis by fastforce
  next
    case False
    with Cons.prems have "check_duplicates ts (insert a S) = Some t" by simp
    from Cons.IH [OF this] obtain pre post where
      p: "ts = pre @ t # post" "t \<in> insert a S \<or> t \<in> set pre" "distinct pre"
        "set pre \<inter> insert a S = {}"
      by blast
    have "a # ts = (a # pre) @ t # post" using p(1) by simp
    moreover have "t \<in> S \<or> t \<in> set (a # pre)" using p(2) by auto
    moreover have "distinct (a # pre)" using p(3,4) by auto
    moreover have "set (a # pre) \<inter> S = {}" using p(4) False by auto
    ultimately show ?thesis by blast
  qed
qed

text \<open>
  C3, amended. When the list of targets holds the same string twice, \<open>Extract\<close> returns
  the duplicate-target error for the first string that repeats an earlier one, for every
  image alike and with both writers untouched: nothing of the image is read. The
  comparison is between the strings as given, so two spellings that are equal only
  without their leading separator do not count as duplicates.
\<close>

theorem duplicate_targets_rejected:
  assumes "Tarball opts = None" "Targets opts = Some ts" "\<not> distinct ts"
  shows "\<exists>pre t post. ts = pre @ t # post \<and> distinct pre \<and> t \<in> set pre \<and>
           (\<forall>img. Extract X img opts = (Some (''duplicate target source detected: '' @ t), opts))"
proof -
  from assms(3) have ne: "ts \<noteq> []" by auto
  from assms(3) obtain t where t: "check_duplicates ts {} = Some t"
    using check_duplicates_None [of ts "{}"] by auto
  from check_duplicates_Some [OF t] obtain pre post where
    p: "ts = pre @ t # post" "distinct pre" "t \<in> set pre"
    by auto
  have "Extract X img opts = (Some (''duplicate target source detected: '' @ t), opts)" for img
    using assms(1,2) ne t by (simp add: Extract_def targets_list_def)
  with p show ?thesis by blast
qed

text \<open>The spec's scenario: the targets \<open>x\<close> and \<open>x\<close>.\<close>

theorem duplicate_targets_rejected_witness:
  "Extract ExportStub image01 (opts_for [''x'', ''x'']) =
     (Some ''duplicate target source detected: x'', opts_for [''x'', ''x''])"
proof -
  have 1: "Tarball (opts_for [''x'', ''x'']) = None"
    and 2: "Targets (opts_for [''x'', ''x'']) = Some [''x'', ''x'']"
    by (simp_all add: opts_for_def)
  have 3: "\<not> distinct [''x'', ''x'']" by simp
  from duplicate_targets_rejected [OF 1 2 3, of ExportStub] obtain pre t post where
    p: "[''x'', ''x''] = pre @ t # post"
    and e: "Extract ExportStub image01 (opts_for [''x'', ''x'']) =
      (Some (''duplicate target source detected: '' @ t), opts_for [''x'', ''x''])"
    by blast
  have "t \<in> set (pre @ t # post)" by simp
  with p have "t \<in> set [''x'', ''x'']" by simp
  then have "t = ''x''" by simp
  with e show ?thesis by simp
qed

text \<open>
  The claim as it was stated fails for the two spellings \<open>x\<close> and \<open>/x\<close>: they name
  the same path once trimmed, they pass validation, and the run succeeds.
\<close>

theorem spellings_not_duplicates:
  "TrimPrefix ''x'' ''/'' = TrimPrefix ''/x'' ''/'' \<and>
   Extract ExportStub image01 (opts_for [''x'', ''/x'']) =
     (None, (opts_for [''x'', ''/x''])\<lparr>Destination := \<lparr>entries = [regfile ''x'' ''new''], faults = []\<rparr>\<rparr>)"
  by code_simp

text \<open>
  C6, amended. With no tarball writer and a list of targets that is nil or empty,
  \<open>Extract\<close> returns the error \<open>must provide at least one target\<close>, for every image
  alike and with both writers untouched: no layer is read and nothing is written.
\<close>

theorem no_targets_rejected:
  assumes "Tarball opts = None" "Targets opts = None \<or> Targets opts = Some []"
  shows "Extract X img opts = (Some ''must provide at least one target'', opts)"
  using assms by (auto simp: Extract_def targets_list_def)

theorem no_targets_rejected_witness:
  "Extract ExportStub image01 (opts_for []) =
     (Some ''must provide at least one target'', opts_for []) \<and>
   Extract ExportStub image01 ((opts_for [])\<lparr>Targets := None\<rparr>) =
     (Some ''must provide at least one target'', (opts_for [])\<lparr>Targets := None\<rparr>)"
proof -
  have 1: "Tarball (opts_for []) = None" "Tarball ((opts_for [])\<lparr>Targets := None\<rparr>) = None"
    by (simp_all add: opts_for_def)
  have 2: "Targets (opts_for []) = None \<or> Targets (opts_for []) = Some []"
    by (simp add: opts_for_def)
  have 3: "Targets ((opts_for [])\<lparr>Targets := None\<rparr>) = None \<or>
      Targets ((opts_for [])\<lparr>Targets := None\<rparr>) = Some []"
    by simp
  from no_targets_rejected [OF 1(1) 2, of ExportStub image01]
       no_targets_rejected [OF 1(2) 3, of ExportStub image01]
  show ?thesis by simp
qed

text \<open>The claim as it was stated names a message the code does not return.\<close>

theorem no_targets_message:
  "fst (Extract ExportStub image01 (opts_for [])) \<noteq> Some ''no targets provided''"
  by code_simp

text \<open>
  C2. A target that only a lower layer defines, and that a more recent layer removes by
  a whiteout marker, should be omitted from the archive. The code does not omit it.
  \<open>image_whiteout\<close> has \<open>x\<close> in its older layer and, in its more recent layer,
  nothing but the whiteout marker \<open>.wh.x\<close>, the deletion of \<open>x\<close>. The marker is an
  empty file, which the entry loop skips, and no other step of \<open>Extract\<close> looks for
  markers: the run succeeds and the archive holds the deleted \<open>x\<close> with the content
  of the older layer.
\<close>

theorem whiteout_not_honoured:
  "Extract ExportStub image_whiteout (opts_for [''x'']) =
     (None, (opts_for [''x''])\<lparr>Destination := \<lparr>entries = [regfile ''x'' ''old''], faults = []\<rparr>\<rparr>)"
  by code_simp

end
